theory Spec2Isabelle
  imports Complex_Main "HOL-Library.Sublist"
begin

chapter \<open>The upload-to-prediction pipeline of DSscan\<close>

text \<open>
  A shallow embedding of the services and of the view that classify an uploaded image:
  the prediction interpreter and the model holder of \<^verbatim>\<open>app/services/inference.py\<close>,
  the file name and image handling of \<^verbatim>\<open>app/services/image_processor.py\<close>, and the
  view \<^verbatim>\<open>predict\<close> of \<^verbatim>\<open>app/views/dashboard.py\<close>. The libraries the code calls
  (Pillow, TensorFlow, the file system, the database, werkzeug) are parameters of the
  model: each function takes the outcome of the calls it makes.
\<close>

section \<open>Prediction interpreter (app/services/inference.py, lines 191--212)\<close>

text \<open>
  The dictionary returned by \<^verbatim>\<open>InferenceService.predict\<close>. The key \<^verbatim>\<open>'class'\<close> is
  the field \<open>result_class\<close>; the nested dictionary \<^verbatim>\<open>'probabilities'\<close> is a map from
  the class label to its probability. Python floats are idealised as real numbers:
  the comparison with 0.5 is exact on both, the rounding of \<^verbatim>\<open>1 - prob_value\<close> is
  not modelled.
\<close>

record prediction_result =
  result_class :: string
  confidence :: real
  raw_probability :: real
  probabilities :: "string \<rightharpoonup> real"

text \<open>
  Lines 194--212: the interpretation of the sigmoid output \<^verbatim>\<open>prob_value\<close>.
  \<^verbatim>\<open>
  if prob_value > 0.5:
      result_class = 'Normal'
      confidence = prob_value
  else:
      result_class = 'Down Syndrome'
      confidence = 1 - prob_value
  return {'class': result_class, 'confidence': confidence,
          'raw_probability': prob_value,
          'probabilities': {'Normal': prob_value, 'Down Syndrome': 1 - prob_value}}
  \<close>
\<close>

definition interpret_prob :: "real \<Rightarrow> prediction_result" where
  "interpret_prob prob_value =
     (let (cls, conf) =
            (if prob_value > 0.5 then (''Normal'', prob_value)
             else (''Down Syndrome'', 1 - prob_value))
      in \<lparr> result_class = cls,
           confidence = conf,
           raw_probability = prob_value,
           probabilities = [''Normal'' \<mapsto> prob_value, ''Down Syndrome'' \<mapsto> 1 - prob_value] \<rparr>)"

section \<open>Python strings and exceptions\<close>

text \<open>
  A Python \<^verbatim>\<open>str\<close> is modelled as a \<open>string\<close>, read as a sequence of code points
  below 256; \<^verbatim>\<open>bytes\<close> are a \<open>string\<close> too. Exceptions are values: a function that
  can raise returns \<open>py_error + 'a\<close>.
\<close>

datatype py_error =
    IndexError
  | ValueError string
  | RuntimeError string
  | OtherException string

fun str_of :: "py_error \<Rightarrow> string" where
  "str_of IndexError = ''list index out of range''"
| "str_of (ValueError m) = m"
| "str_of (RuntimeError m) = m"
| "str_of (OtherException m) = m"

text \<open>\<^verbatim>\<open>xs[i]\<close> for a non-negative index: out of range raises \<^verbatim>\<open>IndexError\<close>.\<close>

definition getitem :: "'a list \<Rightarrow> nat \<Rightarrow> py_error + 'a" where
  "getitem xs i = (if i < length xs then Inr (xs ! i) else Inl IndexError)"

text \<open>
  \<^verbatim>\<open>str.lower()\<close> on code points below 256: the upper-case letters are A--Z
  (65--90) and the Latin-1 letters 192--222 without the multiplication sign 215; the
  lower-case letter is 32 higher, which is bit 5 of the code.
\<close>

definition lower_char :: "char \<Rightarrow> char" where
  "lower_char c =
     (let n = (of_char c :: nat)
      in if (65 \<le> n \<and> n \<le> 90) \<or> (192 \<le> n \<and> n \<le> 222 \<and> n \<noteq> 215)
         then (case c of Char b0 b1 b2 b3 b4 b5 b6 b7 \<Rightarrow> Char b0 b1 b2 b3 b4 True b6 b7)
         else c)"

definition lower :: "string \<Rightarrow> string" where
  "lower s = map lower_char s"

text \<open>
  \<^verbatim>\<open>str.upper()\<close>, written out for the ASCII letters a--z (97--122) only: it is applied
  to a file extension of the allow-set, which is ASCII.
\<close>

definition upper_char :: "char \<Rightarrow> char" where
  "upper_char c =
     (let n = (of_char c :: nat)
      in if 97 \<le> n \<and> n \<le> 122
         then (case c of Char b0 b1 b2 b3 b4 b5 b6 b7 \<Rightarrow> Char b0 b1 b2 b3 b4 False b6 b7)
         else c)"

definition upper :: "string \<Rightarrow> string" where
  "upper s = map upper_char s"

text \<open>
  \<^verbatim>\<open>s.rsplit(sep, 1)\<close> for a one-character separator: the string itself when the
  separator does not occur, otherwise the part before and the part after its last
  occurrence.
\<close>

definition rsplit1 :: "char \<Rightarrow> string \<Rightarrow> string list" where
  "rsplit1 sep s =
     (if sep \<in> set s
      then [rev (tl (dropWhile (\<lambda>c. c \<noteq> sep) (rev s))), rev (takeWhile (\<lambda>c. c \<noteq> sep) (rev s))]
      else [s])"

text \<open>
  \<^verbatim>\<open>s.replace(old, '')\<close>: the occurrences of \<open>old\<close> are removed from left to right,
  without overlap, in one pass; what the removal brings together is not scanned again.
  An empty \<open>old\<close> leaves the string as it is.
\<close>

function str_remove :: "string \<Rightarrow> string \<Rightarrow> string" where
  "str_remove old [] = []"
| "str_remove old (x # xs) =
     (if old \<noteq> [] \<and> prefix old (x # xs)
      then str_remove old (drop (length old) (x # xs))
      else x # str_remove old xs)"
  by pat_completeness auto
termination
  by (relation "measure (\<lambda>(old, s). length s)") (auto simp: neq_Nil_conv)

text \<open>
  \<^verbatim>\<open>str.isspace()\<close> on code points below 256, and \<^verbatim>\<open>str.strip()\<close> without
  argument, which drops the white space at both ends.
\<close>

definition isspace :: "char \<Rightarrow> bool" where
  "isspace c = ((of_char c :: nat) \<in> {9, 10, 11, 12, 13, 28, 29, 30, 31, 32, 133, 160})"

definition strip :: "string \<Rightarrow> string" where
  "strip s = rev (dropWhile isspace (rev (dropWhile isspace s)))"

text \<open>\<^verbatim>\<open>os.path.join(a, b)\<close> of \<^verbatim>\<open>posixpath\<close> for two components.\<close>

definition os_path_join :: "string \<Rightarrow> string \<Rightarrow> string" where
  "os_path_join a b =
     (if prefix ''/'' b then b
      else if a = [] \<or> suffix ''/'' a then a @ b
      else a @ ''/'' @ b)"

section \<open>Image processor (app/services/image_processor.py)\<close>

definition ALLOWED_EXTENSIONS :: "string set" where
  "ALLOWED_EXTENSIONS =
     {''jpg'', ''jpeg'', ''png'', ''gif'', ''bmp'', ''webp'', ''tiff'', ''tif'', ''heic'', ''heif''}"

text \<open>
  \<^verbatim>\<open>
  def is_allowed_file(cls, filename):
      if '.' not in filename:
          return False
      ext = filename.rsplit('.', 1)[1].lower()
      return ext in cls.ALLOWED_EXTENSIONS
  \<close>
\<close>

definition is_allowed_file :: "string \<Rightarrow> py_error + bool" where
  "is_allowed_file filename =
     (if CHR ''.'' \<notin> set filename then Inr False
      else case getitem (rsplit1 CHR ''.'' filename) 1 of
             Inl e \<Rightarrow> Inl e
           | Inr part \<Rightarrow> Inr (lower part \<in> ALLOWED_EXTENSIONS))"

text \<open>
  \<^verbatim>\<open>
  def get_extension(cls, filename):
      if '.' in filename:
          return filename.rsplit('.', 1)[1].lower()
      return ''
  \<close>
\<close>

definition get_extension :: "string \<Rightarrow> py_error + string" where
  "get_extension filename =
     (if CHR ''.'' \<in> set filename
      then case getitem (rsplit1 CHR ''.'' filename) 1 of
             Inl e \<Rightarrow> Inl e
           | Inr part \<Rightarrow> Inr (lower part)
      else Inr [])"

text \<open>
  \<^verbatim>\<open>
  def sanitize_filename(cls, filename):
      dangerous_chars = ['/', '\\', '..', '<', '>', ':', '"', '|', '?', '*', '\x00']
      sanitized = filename
      for char in dangerous_chars:
          sanitized = sanitized.replace(char, '')
      return sanitized.strip()
  \<close>
  The backslash is code 92, the double quote 34, the null byte 0.
\<close>

definition dangerous_chars :: "string list" where
  "dangerous_chars =
     [''/'', [CHR 0x5C], ''..'', ''<'', ''>'', '':'', [CHR 0x22], ''|'', ''?'', ''*'', [CHR 0x00]]"

definition sanitize_filename :: "string \<Rightarrow> string" where
  "sanitize_filename filename = strip (fold str_remove dangerous_chars filename)"

text \<open>
  A Pillow image, as far as the loader looks at it: the mode it was decoded with, and
  the operations applied since. \<open>WhiteComposite img\<close> is
  \<^verbatim>\<open>Image.new('RGB', img.size, (255, 255, 255))\<close> with \<open>img\<close> pasted through its fourth
  band as mask; \<open>ConvertRGB img\<close> is \<^verbatim>\<open>img.convert('RGB')\<close>. Both are images of mode RGB.
\<close>

datatype pil_image =
    Decoded string
  | WhiteComposite pil_image
  | ConvertRGB pil_image

fun mode :: "pil_image \<Rightarrow> string" where
  "mode (Decoded m) = m"
| "mode (WhiteComposite img) = ''RGB''"
| "mode (ConvertRGB img) = ''RGB''"


text \<open>
  \<^verbatim>\<open>
  def load_image(cls, file_path_or_bytes):
      try:
          img = Image.open(...)
          if img.mode != 'RGB':
              if img.mode == 'RGBA':
                  background = Image.new('RGB', img.size, (255, 255, 255))
                  background.paste(img, mask=img.split()[3])
                  img = background
              else:
                  img = img.convert('RGB')
          return img
      except Exception as e:
          raise ValueError(f"Gagal memuat gambar: {str(e)}")
  \<close>
  The second argument is what \<^verbatim>\<open>Image.open\<close> gives: the text of the exception it
  raises, or the opened image. Pillow decodes lazily, so the calls made on the opened
  image inside the \<^verbatim>\<open>try\<close> (\<^verbatim>\<open>split\<close> and \<^verbatim>\<open>paste\<close>, or \<^verbatim>\<open>convert\<close>) can
  raise as well, for instance on truncated data: \<open>pillow_error img\<close> is the text of the
  exception they raise on \<open>img\<close>, if any. Every exception leaves as \<^verbatim>\<open>ValueError\<close>.
\<close>

definition load_image ::
  "(pil_image \<Rightarrow> string option) \<Rightarrow> string + pil_image \<Rightarrow> py_error + pil_image" where
  "load_image pillow_error opened =
     (case opened of
        Inl msg \<Rightarrow> Inl (ValueError (''Gagal memuat gambar: '' @ msg))
      | Inr img \<Rightarrow>
          if mode img \<noteq> ''RGB''
          then (if mode img = ''RGBA''
                then (case pillow_error img of
                        Some msg \<Rightarrow> Inl (ValueError (''Gagal memuat gambar: '' @ msg))
                      | None \<Rightarrow> Inr (WhiteComposite img))
                else (case pillow_error img of
                        Some msg \<Rightarrow> Inl (ValueError (''Gagal memuat gambar: '' @ msg))
                      | None \<Rightarrow> Inr (ConvertRGB img)))
          else Inr img)"

text \<open>
  \<^verbatim>\<open>preprocess_for_model\<close> on an image already loaded: resized to 224 x 224 (Lanczos),
  scaled by 1/255, with a batch axis. The numeric array is kept symbolic. The function
  has no handler of its own: \<open>resize_error\<close> is the text of the exception that
  \<^verbatim>\<open>image.resize\<close> or \<^verbatim>\<open>np.array\<close> raises (an \<^verbatim>\<open>OSError\<close> on a truncated file),
  if any, and that exception leaves the function as it is.
\<close>

datatype tensor = Preprocessed pil_image

definition preprocess_for_model :: "string option \<Rightarrow> pil_image \<Rightarrow> py_error + tensor" where
  "preprocess_for_model resize_error img =
     (case resize_error of
        Some msg \<Rightarrow> Inl (OtherException msg)
      | None \<Rightarrow> Inr (Preprocessed img))"

text \<open>
  \<^verbatim>\<open>
  def validate_file_size(cls, file_bytes, max_size_mb=10):
      file_size = len(file_bytes)
      max_size = max_size_mb * 1024 * 1024
      if file_size > max_size:
          return False, f"Ukuran file terlalu besar (...). Maksimal {max_size_mb} MB."
      return True, "OK"
  \<close>
  The messages an upload can be answered with; the formatted texts are constructors.
\<close>

datatype message =
    NoFileUploaded
  | NoFileSelected
  | UnsupportedFormat
  | FileTooLarge nat nat
  | OK
  | ErrorText string
  | InternalError

definition validate_file_size :: "string \<Rightarrow> nat \<Rightarrow> bool \<times> message" where
  "validate_file_size file_bytes max_size_mb =
     (let file_size = length file_bytes;
          max_size = max_size_mb * 1024 * 1024
      in if file_size > max_size then (False, FileTooLarge file_size max_size_mb)
         else (True, OK))"

text \<open>
  \<^verbatim>\<open>save_image(image, file_path, format)\<close>: every exception inside is raised again
  as \<^verbatim>\<open>ValueError\<close>. \<open>write_error\<close> is the text of the exception the write meets, if
  any; a successful write adds the file to the upload store.
\<close>

record stored_file =
  file_path :: string
  file_format :: string
  file_image :: pil_image

definition save_image ::
  "string option \<Rightarrow> pil_image \<Rightarrow> string \<Rightarrow> string \<Rightarrow> stored_file list
     \<Rightarrow> (py_error + bool) \<times> stored_file list" where
  "save_image write_error img path fmt files =
     (case write_error of
        Some msg \<Rightarrow> (Inl (ValueError (''Gagal menyimpan gambar: '' @ msg)), files)
      | None \<Rightarrow>
          (let img' = (if upper fmt = ''JPEG'' \<and> mode img \<noteq> ''RGB''
                       then ConvertRGB img else img)
           in (Inr True,
               files @ [\<lparr> file_path = path, file_format = fmt, file_image = img' \<rparr>])))"

section \<open>Model holder (app/services/inference.py)\<close>

text \<open>
  The module-level singleton: \<^verbatim>\<open>_model = None\<close>, \<^verbatim>\<open>_model_loaded = False\<close>. A loaded
  model is an opaque handle.
\<close>

type_synonym model_handle = nat

record holder =
  model :: "model_handle option"
  model_loaded :: bool

definition initial_holder :: holder where
  "initial_holder = \<lparr> model = None, model_loaded = False \<rparr>"

text \<open>
  What the service asks of the outside: whether a path exists (\<^verbatim>\<open>os.path.exists\<close>),
  whether the streamed download of a URL to a path goes through, what the \<^verbatim>\<open>try\<close>
  block around \<^verbatim>\<open>tf.keras.models.load_model\<close> ends with (\<open>None\<close> when anything in it
  raises), and the model's output on a tensor (the text of the exception, or
  \<^verbatim>\<open>float(prediction[0][0])\<close>). Every call to the outside is recorded as an effect.
\<close>

record model_env =
  path_exists :: "string \<Rightarrow> bool"
  download_ok :: "string \<Rightarrow> string \<Rightarrow> bool"
  tf_load :: "string \<Rightarrow> model_handle option"
  model_predict :: "model_handle \<Rightarrow> tensor \<Rightarrow> string + real"

datatype effect =
    PathExists string
  | Download string string
  | LoadModel string

text \<open>Truth value of an optional string: \<^verbatim>\<open>None\<close> and \<^verbatim>\<open>''\<close> are false.\<close>

fun truthy :: "string option \<Rightarrow> bool" where
  "truthy None = False"
| "truthy (Some u) = (u \<noteq> [])"

text \<open>
  \<^verbatim>\<open>download_model(url, destination)\<close>: false without a URL, otherwise the outcome of
  the download (every exception is caught and gives false).
\<close>

definition download_model ::
  "'a model_env_scheme \<Rightarrow> string option \<Rightarrow> string \<Rightarrow> bool \<times> effect list" where
  "download_model env url destination =
     (case url of
        None \<Rightarrow> (False, [])
      | Some u \<Rightarrow>
          if u = [] then (False, [])
          else (download_ok env u destination, [Download u destination]))"

text \<open>
  Lines 57--91 of \<^verbatim>\<open>initialize_model\<close>: the \<^verbatim>\<open>try\<close> block sets both globals on
  success, the \<^verbatim>\<open>except\<close> block resets both.
\<close>

definition try_load ::
  "'a model_env_scheme \<Rightarrow> string \<Rightarrow> effect list \<Rightarrow> model_handle option \<times> holder \<times> effect list" where
  "try_load env model_path fx =
     (case tf_load env model_path of
        Some m \<Rightarrow> (Some m, \<lparr> model = Some m, model_loaded = True \<rparr>, fx @ [LoadModel model_path])
      | None \<Rightarrow> (None, \<lparr> model = None, model_loaded = False \<rparr>, fx @ [LoadModel model_path]))"

text \<open>
  \<^verbatim>\<open>
  def initialize_model(cls, model_path, download_url=None):
      global _model, _model_loaded
      if _model_loaded and _model is not None:
          return _model
      if not os.path.exists(model_path):
          if download_url:
              if not cls.download_model(download_url, model_path):
                  return None
          else:
              return None
      try: ... _model = load_model(model_path); _model_loaded = True; return _model
      except Exception: _model = None; _model_loaded = False; return None
  \<close>
  The result is the returned model, the holder afterwards and the effects performed.
\<close>

definition initialize_model ::
  "'a model_env_scheme \<Rightarrow> string \<Rightarrow> string option \<Rightarrow> holder
     \<Rightarrow> model_handle option \<times> holder \<times> effect list" where
  "initialize_model env model_path download_url h =
     (if model_loaded h \<and> model h \<noteq> None then (model h, h, [])
      else if \<not> path_exists env model_path then
        (if truthy download_url then
           (case download_model env download_url model_path of
              (False, fx) \<Rightarrow> (None, h, PathExists model_path # fx)
            | (True, fx) \<Rightarrow> try_load env model_path (PathExists model_path # fx))
         else (None, h, [PathExists model_path]))
      else try_load env model_path [PathExists model_path])"

text \<open>The entries of \<^verbatim>\<open>current_app.config\<close> that the pipeline reads.\<close>

record config =
  MODEL_PATH :: string
  MODEL_DOWNLOAD_URL :: "string option"
  UPLOAD_FOLDER :: string

text \<open>
  \<^verbatim>\<open>
  def load_model(cls, model_path=None, download_url=None):
      if _model_loaded and _model is not None:
          return _model
      if model_path is None: model_path = current_app.config.get('MODEL_PATH')
      if download_url is None: download_url = current_app.config.get('MODEL_DOWNLOAD_URL')
      return cls.initialize_model(model_path, download_url)
  \<close>
\<close>

definition load_model ::
  "'a model_env_scheme \<Rightarrow> config \<Rightarrow> string option \<Rightarrow> string option \<Rightarrow> holder
     \<Rightarrow> model_handle option \<times> holder \<times> effect list" where
  "load_model env cfg model_path download_url h =
     (if model_loaded h \<and> model h \<noteq> None then (model h, h, [])
      else
        (let model_path' = (case model_path of None \<Rightarrow> MODEL_PATH cfg | Some p \<Rightarrow> p);
             download_url' = (case download_url of None \<Rightarrow> MODEL_DOWNLOAD_URL cfg
                              | Some u \<Rightarrow> Some u)
         in initialize_model env model_path' download_url' h))"

definition is_model_available :: "holder \<Rightarrow> bool" where
  "is_model_available h = (model_loaded h \<and> model h \<noteq> None)"

text \<open>
  \<^verbatim>\<open>InferenceService.predict(preprocessed_image)\<close>: the model is fetched with
  \<^verbatim>\<open>load_model()\<close>; without a model, and on any exception of the model call, a
  \<^verbatim>\<open>RuntimeError\<close> is raised; otherwise the output is interpreted.
\<close>

definition inference_predict ::
  "'a model_env_scheme \<Rightarrow> config \<Rightarrow> tensor \<Rightarrow> holder
     \<Rightarrow> (py_error + prediction_result) \<times> holder \<times> effect list" where
  "inference_predict env cfg preprocessed_image h =
     (case load_model env cfg None None h of
        (None, h', fx) \<Rightarrow>
          (Inl (RuntimeError ''Model tidak tersedia. Silakan hubungi administrator.''), h', fx)
      | (Some m, h', fx) \<Rightarrow>
          (case model_predict env m preprocessed_image of
             Inl msg \<Rightarrow> (Inl (RuntimeError (''Gagal melakukan prediksi: '' @ msg)), h', fx)
           | Inr prob_value \<Rightarrow> (Inr (interpret_prob prob_value), h', fx)))"

text \<open>
  The holder states a process can be in: the initial one, and the one after any call of
  \<^verbatim>\<open>initialize_model\<close> or \<^verbatim>\<open>load_model\<close> in a state it can be in.
\<close>

inductive reachable :: "holder \<Rightarrow> bool" where
  reachable_initial: "reachable initial_holder"
| reachable_initialize:
    "reachable h \<Longrightarrow> initialize_model (env :: model_env) model_path download_url h = (m, h', fx)
       \<Longrightarrow> reachable h'"
| reachable_load:
    "reachable h \<Longrightarrow> load_model (env :: model_env) cfg model_path download_url h = (m, h', fx)
       \<Longrightarrow> reachable h'"

section \<open>Upload pipeline (app/views/dashboard.py, predict)\<close>

text \<open>
  One request: whether \<^verbatim>\<open>'file'\<close> is in \<^verbatim>\<open>request.files\<close>, the claimed file name, the
  bytes read from the upload, and the logged-in user.
\<close>

record request =
  has_file :: bool
  filename :: string
  file_bytes :: string
  username :: string
  user_id :: nat

text \<open>
  The outside of one request, on top of the model's: what \<^verbatim>\<open>Image.open\<close> makes of the
  bytes, the exception text of the later Pillow calls of the loader and of the
  preprocessing on an image if they fail, the exception text of the artifact write and
  of the database commit if they fail, the formatted time
  \<^verbatim>\<open>datetime.utcnow().strftime('%Y%m%d_%H%M%S')\<close>, and werkzeug's \<^verbatim>\<open>secure_filename\<close>.
\<close>

record world = model_env +
  image_open :: "string \<Rightarrow> string + pil_image"
  pillow_error :: "pil_image \<Rightarrow> string option"
  preprocess_error :: "pil_image \<Rightarrow> string option"
  write_error :: "string option"
  commit_error :: "string option"
  utcnow :: string
  secure_filename :: "string \<Rightarrow> string"

text \<open>
  A row of the table \<^verbatim>\<open>predictions\<close> (app/models/prediction.py); the key and the
  creation time are filled in by the database.
\<close>

record prediction =
  p_user_id :: nat
  p_filename :: string
  p_original_filename :: string
  p_result_class :: string
  p_confidence :: real

datatype log_entry =
    LogError string
  | LogPrediction string real string

record app_state =
  st_holder :: holder
  st_effects :: "effect list"
  st_db :: "prediction list"
  st_uploads :: "stored_file list"
  st_log :: "log_entry list"

text \<open>
  The JSON answer with its HTTP status. On success the body carries the class, the
  confidence and the two probabilities of the result (also rendered as percentages).
\<close>

record response =
  status :: nat
  success :: bool
  error :: "message option"
  result :: "prediction_result option"

definition failure :: "nat \<Rightarrow> message \<Rightarrow> response" where
  "failure code msg = \<lparr> status = code, success = False, error = Some msg, result = None \<rparr>"

definition succeeded :: "prediction_result \<Rightarrow> response" where
  "succeeded res = \<lparr> status = 200, success = True, error = None, result = Some res \<rparr>"

fun is_ValueError :: "py_error \<Rightarrow> bool" where
  "is_ValueError (ValueError m) = True"
| "is_ValueError e = False"

fun is_RuntimeError :: "py_error \<Rightarrow> bool" where
  "is_RuntimeError (RuntimeError m) = True"
| "is_RuntimeError e = False"

text \<open>
  A stage of the view either ends the \<^verbatim>\<open>try\<close> block, with an exception that reaches
  the outer handler or with a response, or hands its values to the next stage.
\<close>

datatype 'a stage =
    Done "py_error + response"
  | Next 'a

text \<open>
  Lines 36--92: presence and name of the file, sanitizing and extension check, size
  check, decoding, preprocessing and inference. The handlers are the source's:
  \<^verbatim>\<open>except ValueError\<close> around \<^verbatim>\<open>load_image\<close> answers 400 with the text,
  \<^verbatim>\<open>except RuntimeError\<close> around the inference logs and answers 500 with the text.
  The preprocessing stands outside both: its exception reaches the outer handler.
\<close>

definition predict_until_inferred ::
  "world \<Rightarrow> config \<Rightarrow> request \<Rightarrow> app_state
     \<Rightarrow> (string \<times> pil_image \<times> prediction_result) stage \<times> app_state" where
  "predict_until_inferred env cfg req st =
     (if \<not> has_file req then (Done (Inr (failure 400 NoFileUploaded)), st)
      else if filename req = [] then (Done (Inr (failure 400 NoFileSelected)), st)
      else
        let original_filename = sanitize_filename (filename req) in
        (case is_allowed_file original_filename of
          Inl e \<Rightarrow> (Done (Inl e), st)
        | Inr False \<Rightarrow> (Done (Inr (failure 400 UnsupportedFormat)), st)
        | Inr True \<Rightarrow>
            (case validate_file_size (file_bytes req) 10 of
               (False, msg) \<Rightarrow> (Done (Inr (failure 400 msg)), st)
             | (True, msg) \<Rightarrow>
                 (case load_image (pillow_error env) (image_open env (file_bytes req)) of
                    Inl e \<Rightarrow>
                      if is_ValueError e then (Done (Inr (failure 400 (ErrorText (str_of e)))), st)
                      else (Done (Inl e), st)
                  | Inr img \<Rightarrow>
                      (case preprocess_for_model (preprocess_error env img) img of
                         Inl e \<Rightarrow> (Done (Inl e), st)
                       | Inr preprocessed \<Rightarrow>
                      (case inference_predict env cfg preprocessed (st_holder st) of
                         (r, h', fx) \<Rightarrow>
                           let st1 = st\<lparr> st_holder := h', st_effects := st_effects st @ fx \<rparr> in
                           (case r of
                              Inl e \<Rightarrow>
                                if is_RuntimeError e
                                then (Done (Inr (failure 500 (ErrorText (str_of e)))),
                                      st1\<lparr> st_log := st_log st1
                                             @ [LogError (''Inference error: '' @ str_of e)] \<rparr>)
                                else (Done (Inl e), st1)
                            | Inr res \<Rightarrow> (Next (original_filename, img, res), st1))))))))"

text \<open>
  Lines 94--104: the name of the artifact,
  \<^verbatim>\<open>
  timestamp = datetime.utcnow().strftime('%Y%m%d_%H%M%S')
  class_name = result['class'].replace(' ', '')
  username = secure_filename(current_user.username)
  ext = ImageProcessor.get_extension(original_filename) or 'jpg'
  if ext.lower() in ['heic', 'heif']:
      ext = 'jpg'
  new_filename = f"{class_name}_{timestamp}_{username}.{ext}"
  \<close>
\<close>

definition stored_extension :: "string \<Rightarrow> string" where
  "stored_extension e =
     (let ext = (if e = [] then ''jpg'' else e)
      in if lower ext \<in> {''heic'', ''heif''} then ''jpg'' else ext)"

definition new_filename :: "world \<Rightarrow> request \<Rightarrow> prediction_result \<Rightarrow> string \<Rightarrow> string" where
  "new_filename env req res ext =
     str_remove '' '' (result_class res) @ ''_'' @ utcnow env @ ''_''
       @ secure_filename env (username req) @ ''.'' @ ext"

text \<open>
  Lines 110--113: \<^verbatim>\<open>save_format = 'JPEG' if ext.lower() in ['jpg', 'jpeg'] else ext.upper()\<close>,
  and TIF becomes TIFF.
\<close>

definition save_format :: "string \<Rightarrow> string" where
  "save_format ext =
     (let fmt = (if lower ext \<in> {''jpg'', ''jpeg''} then ''JPEG'' else upper ext)
      in if fmt = ''TIF'' then ''TIFF'' else fmt)"

text \<open>
  Lines 121--145: the row is added and committed, the prediction is logged and the
  success is answered. A failing commit raises to the outer handler and leaves no row.
\<close>

definition record_prediction ::
  "world \<Rightarrow> request \<Rightarrow> string \<Rightarrow> string \<Rightarrow> prediction_result \<Rightarrow> app_state
     \<Rightarrow> (py_error + response) \<times> app_state" where
  "record_prediction env req stored original_filename res st =
     (case commit_error env of
        Some msg \<Rightarrow> (Inl (OtherException msg), st)
      | None \<Rightarrow>
          (Inr (succeeded res),
           st\<lparr> st_db := st_db st
                  @ [\<lparr> p_user_id = user_id req, p_filename = stored,
                       p_original_filename = original_filename,
                       p_result_class = result_class res,
                       p_confidence = confidence res \<rparr>],
               st_log := st_log st
                  @ [LogPrediction (result_class res) (confidence res) (username req)] \<rparr>))"

text \<open>
  Lines 94--145: naming, the write of the artifact, and the record.
  \<^verbatim>\<open>
  try:
      ImageProcessor.save_image(image, file_path, format=save_format)
  except ValueError as e:
      current_app.logger.error(f"Failed to save image: {str(e)}")
      # Continue even if saving fails - prediction was successful
  \<close>
\<close>

definition predict_store_and_record ::
  "world \<Rightarrow> config \<Rightarrow> request \<Rightarrow> string \<Rightarrow> pil_image \<Rightarrow> prediction_result \<Rightarrow> app_state
     \<Rightarrow> (py_error + response) \<times> app_state" where
  "predict_store_and_record env cfg req original_filename img res st =
     (case get_extension original_filename of
        Inl e \<Rightarrow> (Inl e, st)
      | Inr e0 \<Rightarrow>
          let ext = stored_extension e0;
              stored = new_filename env req res ext;
              path = os_path_join (UPLOAD_FOLDER cfg) stored
          in (case save_image (write_error env) img path (save_format ext) (st_uploads st) of
               (Inr ok, files) \<Rightarrow>
                 record_prediction env req stored original_filename res
                   (st\<lparr> st_uploads := files \<rparr>)
             | (Inl e, files) \<Rightarrow>
                 if is_ValueError e
                 then record_prediction env req stored original_filename res
                        (st\<lparr> st_log := st_log st
                               @ [LogError (''Failed to save image: '' @ str_of e)] \<rparr>)
                 else (Inl e, st)))"

text \<open>
  The outer handler of the view: an exception that escapes the \<^verbatim>\<open>try\<close> block is
  logged and answered with status 500 and the fixed internal-error message.
\<close>

fun finish :: "(py_error + response) \<times> app_state \<Rightarrow> response \<times> app_state" where
  "finish (Inr r, st) = (r, st)"
| "finish (Inl e, st) =
     (failure 500 InternalError,
      st\<lparr> st_log := st_log st
             @ [LogError (''Unexpected error in prediction: '' @ str_of e)] \<rparr>)"

definition dashboard_predict ::
  "world \<Rightarrow> config \<Rightarrow> request \<Rightarrow> app_state \<Rightarrow> response \<times> app_state" where
  "dashboard_predict env cfg req st =
     (case predict_until_inferred env cfg req st of
        (Done r, st1) \<Rightarrow> finish (r, st1)
      | (Next (original_filename, img, res), st1) \<Rightarrow>
          finish (predict_store_and_record env cfg req original_filename img res st1))"

section \<open>Concrete scenarios\<close>

text \<open>
  Two states of the outside of the model holder: one where the model file is present
  and loads as handle 7, one where it is absent, the download fails and nothing loads.
\<close>

definition env_present :: model_env where
  "env_present = \<lparr> path_exists = (\<lambda>p. True), download_ok = (\<lambda>u d. False),
                   tf_load = (\<lambda>p. Some 7), model_predict = (\<lambda>m t. Inr 0.9) \<rparr>"

definition env_absent :: model_env where
  "env_absent = \<lparr> path_exists = (\<lambda>p. False), download_ok = (\<lambda>u d. False),
                  tf_load = (\<lambda>p. None), model_predict = (\<lambda>m t. Inl ''no model'') \<rparr>"

text \<open>The row that lines 122--128 build for an upload with extension \<open>ext\<close>.\<close>

definition new_row :: "world \<Rightarrow> request \<Rightarrow> string \<Rightarrow> string \<Rightarrow> prediction_result \<Rightarrow> prediction" where
  "new_row env req ext orig res =
     \<lparr> p_user_id = user_id req, p_filename = new_filename env req res (stored_extension ext),
       p_original_filename = orig, p_result_class = result_class res,
       p_confidence = confidence res \<rparr>"

text \<open>
  Scenario A of the specification: the user alice uploads \<open>photo.png\<close>; the model file is
  present and loads, the model answers 0.9, the image decodes as RGB, the write and the
  commit go through. werkzeug's \<^verbatim>\<open>secure_filename\<close> leaves \<open>alice\<close> as it is.
\<close>

definition alice_world :: world where
  "alice_world =
     \<lparr> path_exists = (\<lambda>p. True), download_ok = (\<lambda>u d. False),
       tf_load = (\<lambda>p. Some 7), model_predict = (\<lambda>m t. Inr 0.9),
       image_open = (\<lambda>b. Inr (Decoded ''RGB'')),
       pillow_error = (\<lambda>i. None), preprocess_error = (\<lambda>i. None),
       write_error = None, commit_error = None,
       utcnow = ''20240101_120000'', secure_filename = (\<lambda>u. u) \<rparr>"

definition alice_config :: config where
  "alice_config = \<lparr> MODEL_PATH = ''models/InceptionResNetV2.keras'',
                     MODEL_DOWNLOAD_URL = Some [], UPLOAD_FOLDER = ''uploads'' \<rparr>"

definition alice_request :: request where
  "alice_request = \<lparr> has_file = True, filename = ''photo.png'', file_bytes = ''PNG'',
                      username = ''alice'', user_id = 1 \<rparr>"

definition empty_state :: app_state where
  "empty_state = \<lparr> st_holder = initial_holder, st_effects = [], st_db = [],
                    st_uploads = [], st_log = [] \<rparr>"

text \<open>The state of scenario A after the inference, and after the record.\<close>

definition alice_inferred :: app_state where
  "alice_inferred =
     \<lparr> st_holder = \<lparr> model = Some 7, model_loaded = True \<rparr>,
       st_effects = [PathExists ''models/InceptionResNetV2.keras'',
                     LoadModel ''models/InceptionResNetV2.keras''],
       st_db = [], st_uploads = [], st_log = [] \<rparr>"

definition alice_recorded :: app_state where
  "alice_recorded =
     \<lparr> st_holder = \<lparr> model = Some 7, model_loaded = True \<rparr>,
       st_effects = [PathExists ''models/InceptionResNetV2.keras'',
                     LoadModel ''models/InceptionResNetV2.keras''],
       st_db = [\<lparr> p_user_id = 1, p_filename = ''Normal_20240101_120000_alice.png'',
                  p_original_filename = ''photo.png'', p_result_class = ''Normal'',
                  p_confidence = 0.9 \<rparr>],
       st_uploads = [\<lparr> file_path = ''uploads/Normal_20240101_120000_alice.png'',
                       file_format = ''PNG'', file_image = Decoded ''RGB'' \<rparr>],
       st_log = [LogPrediction ''Normal'' 0.9 ''alice''] \<rparr>"

text \<open>The same upload when the write of the artifact fails.\<close>

definition full_disk_world :: world where
  "full_disk_world = alice_world\<lparr> write_error := Some ''No space left on device'' \<rparr>"

section \<open>Properties of the prediction interpreter\<close>

lemma interpret_high:
  "p > 1/2 \<Longrightarrow> result_class (interpret_prob p) = ''Normal'' \<and> confidence (interpret_prob p) = p"
  by (simp add: interpret_prob_def)

lemma interpret_low:
  "p \<le> 1/2 \<Longrightarrow> result_class (interpret_prob p) = ''Down Syndrome'' \<and> confidence (interpret_prob p) = 1 - p"
  by (simp add: interpret_prob_def)

lemma interpret_probabilities:
  "probabilities (interpret_prob p) = [''Normal'' \<mapsto> p, ''Down Syndrome'' \<mapsto> 1 - p]"
  by (simp add: interpret_prob_def Let_def split: prod.splits)

text \<open>
  Claim C1. For every raw probability \<open>p\<close> in \<open>[0, 1]\<close> the interpreter is the threshold
  rule: above 0.5 the label is Normal and the confidence is \<open>p\<close>, otherwise the label is
  Down Syndrome and the confidence is \<open>1 - p\<close>; the confidence is \<open>max p (1 - p)\<close> and
  lies between 0.5 and 1.
\<close>

theorem interpret_threshold_rule:
  assumes "0 \<le> p" and "p \<le> 1"
  shows "(p > 0.5 \<longrightarrow> result_class (interpret_prob p) = ''Normal'' \<and> confidence (interpret_prob p) = p)
       \<and> (p \<le> 0.5 \<longrightarrow> result_class (interpret_prob p) = ''Down Syndrome''
                        \<and> confidence (interpret_prob p) = 1 - p)
       \<and> confidence (interpret_prob p) = max p (1 - p)
       \<and> 0.5 \<le> confidence (interpret_prob p) \<and> confidence (interpret_prob p) \<le> 1"
proof (cases "p > 1/2")
  case True
  with assms interpret_high [OF True] show ?thesis by (simp add: max_def)
next
  case False
  then have le: "p \<le> 1/2" by simp
  with assms interpret_low [OF le] show ?thesis by (simp add: max_def)
qed

theorem interpret_threshold_rule_witness:
  "(0::real) \<le> 0.8 \<and> (0.8::real) \<le> 1
   \<and> result_class (interpret_prob 0.8) = ''Normal'' \<and> confidence (interpret_prob 0.8) = 0.8
   \<and> (0::real) \<le> 0.3 \<and> (0.3::real) \<le> 1
   \<and> result_class (interpret_prob 0.3) = ''Down Syndrome''
   \<and> confidence (interpret_prob 0.3) = 0.7"
  using interpret_threshold_rule [of "0.8"] interpret_threshold_rule [of "0.3"] by simp

text \<open>
  Claim C2 as stated (at exactly 0.5 the label is Normal) fails: the comparison is
  strict, so 0.5 falls into the else branch.
\<close>

theorem interpret_half_counterexample:
  "result_class (interpret_prob 0.5) \<noteq> ''Normal''"
  by (simp add: interpret_prob_def)

text \<open>
  Claim C2, amended. At a raw probability of exactly 0.5 the interpreter takes the
  Down Syndrome branch, with confidence 0.5.
\<close>

theorem interpret_half:
  "result_class (interpret_prob 0.5) = ''Down Syndrome'' \<and> confidence (interpret_prob 0.5) = 0.5"
  by (simp add: interpret_prob_def)

text \<open>
  Claim C9. The confidence and the probability returned for the other class add up to 1,
  and so do the two class probabilities; both classes are always present.
\<close>

theorem interpret_complementary:
  "dom (probabilities (interpret_prob p)) = {''Normal'', ''Down Syndrome''}
   \<and> (\<forall>other \<in> dom (probabilities (interpret_prob p)).
        other \<noteq> result_class (interpret_prob p) \<longrightarrow>
        confidence (interpret_prob p) + the (probabilities (interpret_prob p) other) = 1)
   \<and> the (probabilities (interpret_prob p) ''Normal'')
       + the (probabilities (interpret_prob p) ''Down Syndrome'') = 1"
proof (cases "p > 1/2")
  case True
  show ?thesis
    using interpret_high [OF True] by (auto simp: interpret_probabilities)
next
  case False
  then have le: "p \<le> 1/2" by simp
  show ?thesis
    using interpret_low [OF le] by (auto simp: interpret_probabilities)
qed

theorem interpret_complementary_witness:
  "''Down Syndrome'' \<in> dom (probabilities (interpret_prob 0.8))
   \<and> ''Down Syndrome'' \<noteq> result_class (interpret_prob 0.8)
   \<and> confidence (interpret_prob 0.8) + the (probabilities (interpret_prob 0.8) ''Down Syndrome'') = 1"
proof -
  have c: "result_class (interpret_prob 0.8) = ''Normal''"
    by (simp add: interpret_prob_def)
  have d: "''Down Syndrome'' \<in> dom (probabilities (interpret_prob 0.8))"
    by (simp add: interpret_probabilities)
  from interpret_complementary [of "0.8"] c d show ?thesis
    by simp
qed

section \<open>Properties of the image processor\<close>

lemma rsplit1_last:
  assumes "sep \<notin> set suf"
  shows "rsplit1 sep (pre @ sep # suf) = [pre, suf]"
proof -
  from assms have all: "\<forall>c \<in> set (rev suf). c \<noteq> sep" by auto
  have t: "takeWhile (\<lambda>c. c \<noteq> sep) (rev suf @ sep # rev pre) = rev suf"
    using all by (simp add: takeWhile_tail)
  have d: "dropWhile (\<lambda>c. c \<noteq> sep) (rev suf @ sep # rev pre) = sep # rev pre"
    using all by (simp add: dropWhile_append3)
  show ?thesis by (simp add: rsplit1_def t d)
qed

lemma getitem_rsplit1:
  "sep \<notin> set suf \<Longrightarrow> getitem (rsplit1 sep (pre @ sep # suf)) 1 = Inr suf"
  by (simp add: rsplit1_last getitem_def)

lemma is_allowed_file_last_suffix:
  "CHR ''.'' \<notin> set suf \<Longrightarrow>
     is_allowed_file (pre @ CHR ''.'' # suf) = Inr (lower suf \<in> ALLOWED_EXTENSIONS)"
  by (simp add: is_allowed_file_def getitem_rsplit1 del: One_nat_def)

lemma get_extension_last_suffix:
  "CHR ''.'' \<notin> set suf \<Longrightarrow> get_extension (pre @ CHR ''.'' # suf) = Inr (lower suf)"
  by (simp add: get_extension_def getitem_rsplit1 del: One_nat_def)

text \<open>
  Claim C10. The extension check is case-insensitive and needs a dot: a name without a
  dot is rejected; a name is accepted exactly when the part after its last dot,
  lower-cased, is in the allow-set; \<open>.JPG\<close> passes.
\<close>

theorem is_allowed_file_spec:
  "(CHR ''.'' \<notin> set fname \<longrightarrow> is_allowed_file fname = Inr False)
   \<and> (CHR ''.'' \<notin> set suf \<longrightarrow>
         is_allowed_file (pre @ ''.'' @ suf) = Inr (lower suf \<in> ALLOWED_EXTENSIONS))
   \<and> is_allowed_file ''.JPG'' = Inr True"
proof (intro conjI impI)
  assume "CHR ''.'' \<notin> set fname"
  then show "is_allowed_file fname = Inr False"
    by (simp add: is_allowed_file_def)
next
  assume "CHR ''.'' \<notin> set suf"
  then show "is_allowed_file (pre @ ''.'' @ suf) = Inr (lower suf \<in> ALLOWED_EXTENSIONS)"
    using is_allowed_file_last_suffix [of suf pre] by simp
next
  have "is_allowed_file ([] @ CHR ''.'' # ''JPG'') = Inr (lower ''JPG'' \<in> ALLOWED_EXTENSIONS)"
    by (rule is_allowed_file_last_suffix) simp
  then show "is_allowed_file ''.JPG'' = Inr True"
    by (simp add: lower_def lower_char_def ALLOWED_EXTENSIONS_def)
qed

theorem is_allowed_file_spec_witness:
  "CHR ''.'' \<notin> set ''README'' \<and> is_allowed_file ''README'' = Inr False
   \<and> CHR ''.'' \<notin> set ''PNG''
   \<and> is_allowed_file ''photo.PNG'' = Inr (lower ''PNG'' \<in> ALLOWED_EXTENSIONS)
   \<and> lower ''PNG'' \<in> ALLOWED_EXTENSIONS"
  using is_allowed_file_spec [of "''README''" "''PNG''" "''photo''"]
  by (simp add: lower_def lower_char_def ALLOWED_EXTENSIONS_def)

lemma set_str_remove: "set (str_remove old s) \<subseteq> set s"
proof (induction old s rule: str_remove.induct)
  case (1 old)
  show ?case by simp
next
  case (2 old x xs)
  show ?case
  proof (cases "old \<noteq> [] \<and> prefix old (x # xs)")
    case True
    have "set (drop (length old) (x # xs)) \<subseteq> set (x # xs)"
      by (rule set_drop_subset)
    with True 2(1) show ?thesis by auto
  next
    case False
    with 2(2) show ?thesis by auto
  qed
qed

lemma str_remove_single: "str_remove [c] s = filter (\<lambda>x. x \<noteq> c) s"
  by (induction s) auto

lemma set_strip: "set (strip s) \<subseteq> set s"
proof -
  have "set (strip s) \<subseteq> set (dropWhile isspace s)"
    unfolding strip_def using set_dropWhileD by fastforce
  also have "\<dots> \<subseteq> set s"
    using set_dropWhileD by fastforce
  finally show ?thesis .
qed

lemma fold_str_remove_absent:
  "c \<notin> set s \<Longrightarrow> c \<notin> set (fold str_remove olds s)"
proof (induction olds arbitrary: s)
  case Nil
  then show ?case by simp
next
  case (Cons old olds)
  from Cons.prems set_str_remove [of old s] have "c \<notin> set (str_remove old s)" by auto
  then show ?case using Cons.IH by simp
qed

lemma fold_str_remove_single:
  "[c] \<in> set olds \<Longrightarrow> c \<notin> set (fold str_remove olds s)"
proof (induction olds arbitrary: s)
  case Nil
  then show ?case by simp
next
  case (Cons old olds)
  show ?case
  proof (cases "old = [c]")
    case True
    have "c \<notin> set (str_remove [c] s)" by (simp add: str_remove_single)
    then show ?thesis using True fold_str_remove_absent by simp
  next
    case False
    with Cons.prems have "[c] \<in> set olds" by simp
    then show ?thesis using Cons.IH by simp
  qed
qed

text \<open>
  The single characters of the list are removed for good: later steps only remove.
\<close>

lemma sanitize_filename_single_chars:
  assumes "[c] \<in> set dangerous_chars"
  shows "c \<notin> set (sanitize_filename fname)"
  using fold_str_remove_single [OF assms] set_strip
  unfolding sanitize_filename_def by blast

lemma dangerous_single_chars:
  "c \<in> set ''/<>:|?*'' \<or> c = CHR 0x5C \<or> c = CHR 0x22 \<or> c = CHR 0x00
     \<Longrightarrow> [c] \<in> set dangerous_chars"
  by (auto simp: dangerous_chars_def)

text \<open>
  Claim C3 says that no \<open>..\<close> is left in a sanitized name. The replacements run in
  the order of the list, each once: the removal of a later character can bring two dots
  together after \<open>..\<close> has been dealt with. On \<open>a.<.png\<close> the sanitizer returns
  \<open>a..png\<close>.
\<close>

theorem sanitize_filename_keeps_dotdot:
  "sanitize_filename ''a.<.png'' = ''a..png''
   \<and> sublist ''..'' (sanitize_filename ''a.<.png'')"
proof -
  have e: "sanitize_filename ''a.<.png'' = ''a..png''"
    by (simp add: sanitize_filename_def dangerous_chars_def strip_def isspace_def)
  have "''a..png'' = ''a'' @ ''..'' @ ''png''" by simp
  then have "sublist ''..'' ''a..png''" unfolding sublist_def by blast
  with e show ?thesis by simp
qed






section \<open>Properties of the model holder\<close>

lemma try_load_result:
  "try_load env p fx = (m, h', fx') \<Longrightarrow>
     (m = None \<longrightarrow> model h' = None \<and> \<not> model_loaded h')
     \<and> (\<forall>x. m = Some x \<longrightarrow> model h' = Some x \<and> model_loaded h')"
  by (auto simp: try_load_def split: option.splits)

lemma initialize_model_loaded:
  "model_loaded h \<Longrightarrow> model h = Some m \<Longrightarrow> initialize_model env p u h = (Some m, h, [])"
  by (simp add: initialize_model_def)

lemma load_model_loaded:
  "model_loaded h \<Longrightarrow> model h = Some m \<Longrightarrow> load_model env cfg p u h = (Some m, h, [])"
  by (simp add: load_model_def)

lemma initialize_model_Some:
  assumes "initialize_model env p u h = (Some m, h', fx)"
  shows "model_loaded h' \<and> model h' = Some m"
proof (cases "model_loaded h \<and> model h \<noteq> None")
  case True
  with assms show ?thesis by (auto simp: initialize_model_def)
next
  case False
  with assms obtain fx0 where "try_load env p fx0 = (Some m, h', fx)"
    by (auto simp: initialize_model_def split: if_splits prod.splits bool.splits)
  from try_load_result [OF this] show ?thesis by simp
qed

lemma load_model_Some:
  assumes "load_model env cfg p u h = (Some m, h', fx)"
  shows "model_loaded h' \<and> model h' = Some m"
proof (cases "model_loaded h \<and> model h \<noteq> None")
  case True
  with assms show ?thesis by (auto simp: load_model_def)
next
  case False
  with assms obtain p' u' where "initialize_model env p' u' h = (Some m, h', fx)"
    by (auto simp: load_model_def Let_def)
  then show ?thesis by (rule initialize_model_Some)
qed

text \<open>
  Claim C5. Once a call of \<^verbatim>\<open>initialize_model\<close> or \<^verbatim>\<open>load_model\<close> has returned a
  model, every later call of either returns the same handle, leaves the holder as it
  is and performs no effect: no check of the path, no download, no load.
\<close>

theorem initialize_model_idempotent:
  assumes "initialize_model env p u h = (Some m, h', fx)
           \<or> load_model env cfg p' u' h = (Some m, h', fx)"
  shows "initialize_model env2 p2 u2 h' = (Some m, h', [])
         \<and> load_model env2 cfg2 p3 u3 h' = (Some m, h', [])"
proof -
  from assms have "model_loaded h' \<and> model h' = Some m"
    using initialize_model_Some load_model_Some by blast
  then show ?thesis
    by (simp add: initialize_model_loaded load_model_loaded)
qed

theorem initialize_model_idempotent_witness:
  "initialize_model env_present ''m.keras'' None initial_holder
     = (Some 7, \<lparr> model = Some 7, model_loaded = True \<rparr>, [PathExists ''m.keras'', LoadModel ''m.keras''])
   \<and> initialize_model env_absent ''m.keras'' None \<lparr> model = Some 7, model_loaded = True \<rparr>
     = (Some 7, \<lparr> model = Some 7, model_loaded = True \<rparr>, [])"
proof -
  have first: "initialize_model env_present ''m.keras'' None initial_holder
     = (Some 7, \<lparr> model = Some 7, model_loaded = True \<rparr>, [PathExists ''m.keras'', LoadModel ''m.keras''])"
    by (simp add: initialize_model_def try_load_def env_present_def initial_holder_def)
  from initialize_model_idempotent [OF disjI1, OF first, of env_absent "''m.keras''" None]
  show ?thesis using first by simp
qed

lemma initialize_model_None:
  assumes "initialize_model env p u h = (None, h', fx)"
  shows "(model_loaded h \<longrightarrow> model h = None) \<and> (h' = h \<or> (model h' = None \<and> \<not> model_loaded h'))"
proof (cases "model_loaded h \<and> model h \<noteq> None")
  case True
  with assms show ?thesis by (auto simp: initialize_model_def)
next
  case False
  with assms have "h' = h \<or> (\<exists>fx0. try_load env p fx0 = (None, h', fx))"
    by (auto simp: initialize_model_def split: if_splits prod.splits bool.splits)
  then show ?thesis using False try_load_result by fastforce
qed

lemma initialize_model_inv:
  assumes "initialize_model env p u h = (m, h', fx)" and "model_loaded h \<longleftrightarrow> model h \<noteq> None"
  shows "model_loaded h' \<longleftrightarrow> model h' \<noteq> None"
proof (cases m)
  case None
  with assms initialize_model_None [of env p u h h' fx] show ?thesis by auto
next
  case (Some x)
  with assms initialize_model_Some [of env p u h x h' fx] show ?thesis by auto
qed

lemma load_model_inv:
  assumes "load_model env cfg p u h = (m, h', fx)" and "model_loaded h \<longleftrightarrow> model h \<noteq> None"
  shows "model_loaded h' \<longleftrightarrow> model h' \<noteq> None"
proof (cases "model_loaded h \<and> model h \<noteq> None")
  case True
  with assms show ?thesis by (auto simp: load_model_def)
next
  case False
  with assms obtain p' u' where "initialize_model env p' u' h = (m, h', fx)"
    by (auto simp: load_model_def Let_def)
  then show ?thesis using assms(2) by (rule initialize_model_inv)
qed

lemma reachable_inv: "reachable h \<Longrightarrow> (model_loaded h \<longleftrightarrow> model h \<noteq> None)"
proof (induction rule: reachable.induct)
  case reachable_initial
  show ?case by (simp add: initial_holder_def)
next
  case (reachable_initialize h env model_path download_url m h' fx)
  then show ?case using initialize_model_inv by blast
next
  case (reachable_load h env cfg model_path download_url m h' fx)
  then show ?case using load_model_inv by blast
qed

lemma initialize_model_unset:
  "model h = None \<Longrightarrow> \<not> model_loaded h \<Longrightarrow>
     \<exists>m' h' fx'. initialize_model env p u h = (m', h', PathExists p # fx')"
  by (auto simp: initialize_model_def try_load_def split: option.splits prod.splits bool.splits)

text \<open>
  Claim C7. In every state the holder can be in, a set flag comes with a handle; and
  when \<^verbatim>\<open>initialize_model\<close> fails there, the holder is left unset (no handle, flag
  false, not available), so that the next call attempts the initialization again,
  starting with the check of the path.
\<close>

theorem initialize_failure_not_cached:
  assumes "reachable h"
  shows "(model_loaded h \<longrightarrow> model h \<noteq> None)
       \<and> (\<forall>env p u h' fx. initialize_model (env :: model_env) p u h = (None, h', fx) \<longrightarrow>
            h' = initial_holder \<and> \<not> is_model_available h'
            \<and> (\<forall>env2 p2 u2. \<exists>m2 h2 fx2.
                  initialize_model (env2 :: model_env) p2 u2 h' = (m2, h2, PathExists p2 # fx2)))"
proof (intro conjI allI impI)
  assume "model_loaded h"
  with reachable_inv [OF assms] show "model h \<noteq> None" by simp
next
  fix env :: model_env and p u h' fx
  assume fail: "initialize_model env p u h = (None, h', fx)"
  from initialize_model_None [OF fail] reachable_inv [OF assms]
  have unset: "model h' = None \<and> \<not> model_loaded h'" by auto
  then show "h' = initial_holder" by (simp add: initial_holder_def)
  from unset show "\<not> is_model_available h'" by (simp add: is_model_available_def)
  fix env2 :: model_env and p2 u2
  from unset show "\<exists>m2 h2 fx2. initialize_model env2 p2 u2 h' = (m2, h2, PathExists p2 # fx2)"
    using initialize_model_unset by blast
qed

theorem initialize_failure_not_cached_witness:
  "reachable initial_holder
   \<and> initialize_model env_absent ''m.keras'' (Some ''https://models/m.keras'') initial_holder
       = (None, initial_holder,
          [PathExists ''m.keras'', Download ''https://models/m.keras'' ''m.keras''])
   \<and> \<not> is_model_available initial_holder
   \<and> (\<exists>m2 h2 fx2. initialize_model env_present ''m.keras'' None initial_holder
                      = (m2, h2, PathExists ''m.keras'' # fx2))"
proof -
  have fail: "initialize_model env_absent ''m.keras'' (Some ''https://models/m.keras'')
                initial_holder
       = (None, initial_holder,
          [PathExists ''m.keras'', Download ''https://models/m.keras'' ''m.keras''])"
    by (simp add: initialize_model_def download_model_def env_absent_def initial_holder_def)
  from initialize_failure_not_cached [OF reachable_initial] fail
  show ?thesis using reachable_initial by blast
qed

section \<open>Properties of the upload pipeline\<close>

lemma allowed_get_extension:
  assumes "is_allowed_file f = Inr True"
  shows "\<exists>ext. get_extension f = Inr ext \<and> ext \<in> ALLOWED_EXTENSIONS"
proof -
  from assms have "CHR ''.'' \<in> set f"
    by (auto simp: is_allowed_file_def split: if_splits)
  then obtain pre suf where f: "f = pre @ CHR ''.'' # suf" and suf: "CHR ''.'' \<notin> set suf"
    by (metis split_list_last)
  from assms is_allowed_file_last_suffix [OF suf, of pre] f
  have "lower suf \<in> ALLOWED_EXTENSIONS" by simp
  with get_extension_last_suffix [OF suf, of pre] f show ?thesis by simp
qed

lemma stored_extension_allowed:
  assumes "ext \<in> ALLOWED_EXTENSIONS"
  shows "stored_extension ext = (if ext \<in> {''heic'', ''heif''} then ''jpg'' else ext)"
proof -
  from assms have "ext \<noteq> [] \<and> lower ext = ext"
    by (auto simp: ALLOWED_EXTENSIONS_def lower_def lower_char_def)
  then show ?thesis by (simp add: stored_extension_def)
qed

lemma inference_predict_Inr:
  "inference_predict env cfg t h = (Inr res, h', fx) \<Longrightarrow> \<exists>p. res = interpret_prob p"
  by (auto simp: inference_predict_def split: prod.splits option.splits sum.splits)

lemma class_name_cases:
  "str_remove '' '' (result_class (interpret_prob p)) \<in> {''Normal'', ''DownSyndrome''}"
  by (simp add: interpret_prob_def)

lemma until_inferred_Next:
  assumes "predict_until_inferred env cfg req st = (Next (orig, img, res), st1)"
  shows "orig = sanitize_filename (filename req) \<and> is_allowed_file orig = Inr True
         \<and> st_db st1 = st_db st \<and> st_uploads st1 = st_uploads st \<and> st_log st1 = st_log st
         \<and> (\<exists>p. res = interpret_prob p)"
proof -
  from assms obtain t h' fx where
    inf: "inference_predict env cfg t (st_holder st) = (Inr res, h', fx)"
    and rest: "orig = sanitize_filename (filename req)" "is_allowed_file orig = Inr True"
      "st1 = st\<lparr> st_holder := h', st_effects := st_effects st @ fx \<rparr>"
    unfolding predict_until_inferred_def Let_def
    by (auto split: if_splits sum.splits bool.splits prod.splits)
  from inference_predict_Inr [OF inf] rest show ?thesis by simp
qed

lemma until_inferred_Done:
  assumes "predict_until_inferred env cfg req st = (Done (Inr r), st1)"
  shows "\<not> success r"
  using assms unfolding predict_until_inferred_def Let_def
  by (auto simp: failure_def split: if_splits sum.splits bool.splits prod.splits)

lemma record_prediction_ok:
  "commit_error env = None \<Longrightarrow>
     record_prediction env req (new_filename env req res (stored_extension ext)) orig res st =
       (Inr (succeeded res),
        st\<lparr> st_db := st_db st @ [new_row env req ext orig res],
            st_log := st_log st
              @ [LogPrediction (result_class res) (confidence res) (username req)] \<rparr>)"
  by (simp add: record_prediction_def new_row_def)

lemma record_prediction_Inr:
  assumes "record_prediction env req (new_filename env req res (stored_extension ext)) orig res st
             = (Inr r, st')"
  shows "r = succeeded res \<and> st_db st' = st_db st @ [new_row env req ext orig res]"
proof (cases "commit_error env")
  case None
  from record_prediction_ok [OF None, of req res ext orig st] assms show ?thesis by simp
next
  case (Some m)
  with assms show ?thesis by (simp add: record_prediction_def)
qed

lemma store_write_fails_unfold:
  assumes "get_extension orig = Inr ext" and "write_error env = Some msg"
  shows "predict_store_and_record env cfg req orig img res st =
           record_prediction env req (new_filename env req res (stored_extension ext)) orig res
             (st\<lparr> st_log := st_log st
                  @ [LogError (''Failed to save image: '' @ ''Gagal menyimpan gambar: '' @ msg)] \<rparr>)"
  using assms by (simp add: predict_store_and_record_def save_image_def Let_def)

lemma store_write_ok_unfold:
  assumes "get_extension orig = Inr ext" and "write_error env = None"
  shows "\<exists>files. predict_store_and_record env cfg req orig img res st =
           record_prediction env req (new_filename env req res (stored_extension ext)) orig res
             (st\<lparr> st_uploads := files \<rparr>)"
proof -
  obtain out files where s: "save_image (write_error env) img
      (os_path_join (UPLOAD_FOLDER cfg) (new_filename env req res (stored_extension ext)))
      (save_format (stored_extension ext)) (st_uploads st) = (out, files)"
    by (cases "save_image (write_error env) img
      (os_path_join (UPLOAD_FOLDER cfg) (new_filename env req res (stored_extension ext)))
      (save_format (stored_extension ext)) (st_uploads st)") auto
  with assms(2) have "out = Inr True" by (simp add: save_image_def Let_def)
  with s assms(1) have "predict_store_and_record env cfg req orig img res st =
           record_prediction env req (new_filename env req res (stored_extension ext)) orig res
             (st\<lparr> st_uploads := files \<rparr>)"
    by (simp add: predict_store_and_record_def Let_def)
  then show ?thesis by (rule exI)
qed

lemma store_success:
  assumes store: "predict_store_and_record env cfg req orig img res st = (Inr r, st')"
    and ext: "get_extension orig = Inr ext"
  shows "r = succeeded res \<and> st_db st' = st_db st @ [new_row env req ext orig res]"
proof (cases "write_error env")
  case None
  from store_write_ok_unfold [OF ext None, of cfg req img res st] store
  obtain files where
    "record_prediction env req (new_filename env req res (stored_extension ext)) orig res
       (st\<lparr> st_uploads := files \<rparr>) = (Inr r, st')"
    by auto
  from record_prediction_Inr [OF this] show ?thesis by simp
next
  case (Some msg)
  from store_write_fails_unfold [OF ext Some, of cfg req img res st] store
  have "record_prediction env req (new_filename env req res (stored_extension ext)) orig res
       (st\<lparr> st_log := st_log st
            @ [LogError (''Failed to save image: '' @ ''Gagal menyimpan gambar: '' @ msg)] \<rparr>)
        = (Inr r, st')"
    by simp
  from record_prediction_Inr [OF this] show ?thesis by simp
qed

text \<open>
  Claim C4, amended. When the pipeline succeeds, it adds one row whose stored file name
  is the label without spaces, the time stamp and the secured user name, joined by
  underscores, followed by a dot and the extension: the lower-cased extension of the
  sanitized original name, which is in the allow-set, except that \<open>heic\<close> and \<open>heif\<close>
  become \<open>jpg\<close>. For a name that ends in \<open>.png\<close> the extension is \<open>png\<close>.
\<close>

theorem stored_filename_extension:
  assumes run: "dashboard_predict env cfg req st = (r, st')" and ok: "success r"
  shows "\<exists>ext res. get_extension (sanitize_filename (filename req)) = Inr ext
           \<and> ext \<in> ALLOWED_EXTENSIONS
           \<and> (\<forall>base. sanitize_filename (filename req) = base @ ''.png'' \<longrightarrow> ext = ''png'')
           \<and> result r = Some res
           \<and> str_remove '' '' (result_class res) \<in> {''Normal'', ''DownSyndrome''}
           \<and> (\<exists>row. st_db st' = st_db st @ [row]
                \<and> p_filename row =
                     str_remove '' '' (result_class res) @ ''_'' @ utcnow env @ ''_''
                       @ secure_filename env (username req) @ ''.''
                       @ (if ext \<in> {''heic'', ''heif''} then ''jpg'' else ext))"
proof (cases "predict_until_inferred env cfg req st")
  case (Pair stage st1)
  show ?thesis
  proof (cases stage)
    case (Done d)
    with Pair run have fin: "finish (d, st1) = (r, st')"
      by (simp add: dashboard_predict_def)
    show ?thesis
    proof (cases d)
      case (Inl e)
      with fin have "r = failure 500 InternalError" by simp
      with ok have False by (simp add: failure_def)
      then show ?thesis ..
    next
      case (Inr r')
      from Pair Done Inr have "predict_until_inferred env cfg req st = (Done (Inr r'), st1)"
        by simp
      then have "\<not> success r'" by (rule until_inferred_Done)
      moreover from fin Inr have "r' = r" by simp
      ultimately have False using ok by simp
      then show ?thesis ..
    qed
  next
    case (Next v)
    obtain orig img res where v: "v = (orig, img, res)" by (cases v) auto
    from Pair Next v have until: "predict_until_inferred env cfg req st = (Next (orig, img, res), st1)"
      by simp
    from until_inferred_Next [OF until] obtain p where
      orig: "orig = sanitize_filename (filename req)" and allowed: "is_allowed_file orig = Inr True"
      and db: "st_db st1 = st_db st" and res: "res = interpret_prob p"
      by blast
    from allowed_get_extension [OF allowed] obtain ext where
      ext: "get_extension orig = Inr ext" and mem: "ext \<in> ALLOWED_EXTENSIONS"
      by blast
    from run until have fin:
      "finish (predict_store_and_record env cfg req orig img res st1) = (r, st')"
      by (simp add: dashboard_predict_def)
    obtain out st2 where store: "predict_store_and_record env cfg req orig img res st1 = (out, st2)"
      by (cases "predict_store_and_record env cfg req orig img res st1") auto
    show ?thesis
    proof (cases out)
      case (Inl e)
      with fin store have "r = failure 500 InternalError" by simp
      with ok have False by (simp add: failure_def)
      then show ?thesis ..
    next
      case (Inr r')
      with fin store have eq: "r' = r" "st2 = st'" by simp_all
      from store_success [OF store [unfolded Inr] ext] eq db
      have r: "r = succeeded res"
        and rows: "st_db st' = st_db st @ [new_row env req ext orig res]"
        by simp_all
      have name: "p_filename (new_row env req ext orig res) =
                     str_remove '' '' (result_class res) @ ''_'' @ utcnow env @ ''_''
                       @ secure_filename env (username req) @ ''.''
                       @ (if ext \<in> {''heic'', ''heif''} then ''jpg'' else ext)"
        by (simp add: new_row_def new_filename_def stored_extension_allowed [OF mem])
      show ?thesis
      proof (intro exI conjI)
        from ext orig show "get_extension (sanitize_filename (filename req)) = Inr ext"
          by simp
        show "ext \<in> ALLOWED_EXTENSIONS" by (rule mem)
        show "\<forall>base. sanitize_filename (filename req) = base @ ''.png'' \<longrightarrow> ext = ''png''"
        proof (intro allI impI)
          fix base
          assume "sanitize_filename (filename req) = base @ ''.png''"
          with orig have "orig = base @ CHR ''.'' # ''png''" by simp
          with get_extension_last_suffix [of "''png''" base] ext show "ext = ''png''"
            by (simp add: lower_def lower_char_def)
        qed
        from r show "result r = Some res" by (simp add: succeeded_def)
        show "str_remove '' '' (result_class res) \<in> {''Normal'', ''DownSyndrome''}"
          unfolding res by (rule class_name_cases)
        show "st_db st' = st_db st @ [new_row env req ext orig res]" by (rule rows)
        show "p_filename (new_row env req ext orig res) =
                str_remove '' '' (result_class res) @ ''_'' @ utcnow env @ ''_''
                  @ secure_filename env (username req) @ ''.''
                  @ (if ext \<in> {''heic'', ''heif''} then ''jpg'' else ext)"
          by (rule name)
      qed
    qed
  qed
qed

lemma sanitize_photo: "sanitize_filename ''photo.png'' = ''photo.png''"
  by (simp add: sanitize_filename_def dangerous_chars_def strip_def isspace_def)

lemma allowed_photo: "is_allowed_file ''photo.png'' = Inr True"
proof -
  have "is_allowed_file (''photo'' @ CHR ''.'' # ''png'') = Inr (lower ''png'' \<in> ALLOWED_EXTENSIONS)"
    by (rule is_allowed_file_last_suffix) simp
  then show ?thesis by (simp add: lower_def lower_char_def ALLOWED_EXTENSIONS_def)
qed

lemma extension_photo: "get_extension ''photo.png'' = Inr ''png''"
proof -
  have "get_extension (''photo'' @ CHR ''.'' # ''png'') = Inr (lower ''png'')"
    by (rule get_extension_last_suffix) simp
  then show ?thesis by (simp add: lower_def lower_char_def)
qed

lemma until_inferred_write_error:
  "predict_until_inferred (env\<lparr> write_error := w \<rparr>) cfg req st
     = predict_until_inferred env cfg req st"
proof -
  let ?env = "env\<lparr> write_error := w \<rparr>"
  have d: "download_model ?env u p = download_model env u p" for u p
    by (simp add: download_model_def split: option.splits)
  have t: "try_load ?env p fx = try_load env p fx" for p fx
    by (simp add: try_load_def)
  have pe: "path_exists ?env = path_exists env" by simp
  have n: "initialize_model ?env p u h = initialize_model env p u h" for p u h
    unfolding initialize_model_def d t pe ..
  have l: "load_model ?env cfg p u h = load_model env cfg p u h" for p u h
    unfolding load_model_def n ..
  have mp: "model_predict ?env = model_predict env" by simp
  have i: "inference_predict ?env cfg x h = inference_predict env cfg x h" for x h
    unfolding inference_predict_def l mp ..
  have o: "image_open ?env = image_open env" "pillow_error ?env = pillow_error env"
    "preprocess_error ?env = preprocess_error env"
    by simp_all
  show ?thesis
    unfolding predict_until_inferred_def i o ..
qed

lemma alice_inference:
  "inference_predict alice_world alice_config t initial_holder =
     (Inr (interpret_prob 0.9), \<lparr> model = Some 7, model_loaded = True \<rparr>,
      [PathExists ''models/InceptionResNetV2.keras'', LoadModel ''models/InceptionResNetV2.keras''])"
  by (simp add: inference_predict_def load_model_def initialize_model_def try_load_def
      alice_world_def alice_config_def initial_holder_def Let_def)

lemma alice_until_inferred:
  "predict_until_inferred alice_world alice_config alice_request empty_state =
     (Next (''photo.png'', Decoded ''RGB'', interpret_prob 0.9), alice_inferred)"
proof -
  have a: "has_file alice_request" "filename alice_request = ''photo.png''"
    "file_bytes alice_request = ''PNG''"
    by (simp_all add: alice_request_def)
  have v: "validate_file_size ''PNG'' 10 = (True, OK)"
    by (simp add: validate_file_size_def)
  have l: "load_image (pillow_error alice_world) (image_open alice_world ''PNG'')
             = Inr (Decoded ''RGB'')"
    by (simp add: load_image_def alice_world_def)
  have pp: "preprocess_for_model (preprocess_error alice_world (Decoded ''RGB'')) (Decoded ''RGB'')
              = Inr (Preprocessed (Decoded ''RGB''))"
    by (simp add: preprocess_for_model_def alice_world_def)
  have h: "st_holder empty_state = initial_holder" "st_effects empty_state = []"
    by (simp_all add: empty_state_def)
  show ?thesis
    by (simp add: predict_until_inferred_def a sanitize_photo allowed_photo v l pp h
        alice_inference Let_def)
      (simp add: empty_state_def alice_inferred_def)
qed

lemma dashboard_predict_Next:
  "predict_until_inferred env cfg req st = (Next (orig, img, res), st1) \<Longrightarrow>
     dashboard_predict env cfg req st
       = finish (predict_store_and_record env cfg req orig img res st1)"
  by (simp add: dashboard_predict_def)

text \<open>
  Claim C6. When the inference has succeeded and the write of the artifact fails, the
  failure is logged and the pipeline goes on: provided the commit itself goes through,
  the answer is the success with the result, one row with the class and the confidence
  is added, and no artifact is added to the store. Answer and rows are those of the run
  in which the write succeeds.
\<close>

theorem write_failure_not_fatal:
  assumes inferred: "predict_until_inferred env cfg req st = (Next (orig, img, res), st1)"
    and fails: "write_error env = Some msg"
    and commit: "commit_error env = None"
  shows "\<exists>st' row. dashboard_predict env cfg req st = (succeeded res, st')
           \<and> success (succeeded res) \<and> status (succeeded res) = 200
           \<and> result (succeeded res) = Some res
           \<and> st_db st' = st_db st @ [row]
           \<and> p_user_id row = user_id req \<and> p_original_filename row = orig
           \<and> p_result_class row = result_class res \<and> p_confidence row = confidence res
           \<and> LogError (''Failed to save image: '' @ ''Gagal menyimpan gambar: '' @ msg)
                \<in> set (st_log st')
           \<and> st_uploads st' = st_uploads st
           \<and> fst (dashboard_predict (env\<lparr> write_error := None \<rparr>) cfg req st) = succeeded res
           \<and> st_db (snd (dashboard_predict (env\<lparr> write_error := None \<rparr>) cfg req st))
               = st_db st'"
proof -
  let ?env = "env\<lparr> write_error := None \<rparr>"
  let ?err = "LogError (''Failed to save image: '' @ ''Gagal menyimpan gambar: '' @ msg)"
  from until_inferred_Next [OF inferred] have
    allowed: "is_allowed_file orig = Inr True" and db: "st_db st1 = st_db st"
    and up: "st_uploads st1 = st_uploads st"
    by blast+
  from allowed_get_extension [OF allowed] obtain ext where ext: "get_extension orig = Inr ext"
    by blast
  let ?row = "new_row env req ext orig res"
  let ?st' = "st1\<lparr> st_log := st_log st1 @ [?err],
                   st_db := st_db st1 @ [?row],
                   st_log := st_log st1 @ [?err]
                     @ [LogPrediction (result_class res) (confidence res) (username req)] \<rparr>"
  have store: "predict_store_and_record env cfg req orig img res st1 = (Inr (succeeded res), ?st')"
    unfolding store_write_fails_unfold [OF ext fails]
    by (simp add: record_prediction_ok [OF commit])
  have run: "dashboard_predict env cfg req st = (succeeded res, ?st')"
    unfolding dashboard_predict_Next [OF inferred] store by simp
  have inferred': "predict_until_inferred ?env cfg req st = (Next (orig, img, res), st1)"
    using inferred by (simp add: until_inferred_write_error)
  have commit': "commit_error ?env = None" using commit by simp
  have "write_error ?env = None" by simp
  from store_write_ok_unfold [OF ext this, of cfg req img res st1] obtain files where
    "predict_store_and_record ?env cfg req orig img res st1 =
       record_prediction ?env req (new_filename ?env req res (stored_extension ext)) orig res
         (st1\<lparr> st_uploads := files \<rparr>)"
    by blast
  then have store': "predict_store_and_record ?env cfg req orig img res st1 =
       (Inr (succeeded res),
        st1\<lparr> st_uploads := files,
             st_db := st_db st1 @ [new_row ?env req ext orig res],
             st_log := st_log st1
               @ [LogPrediction (result_class res) (confidence res) (username req)] \<rparr>)"
    by (simp add: record_prediction_ok [OF commit'])
  have row': "new_row ?env req ext orig res = ?row"
    by (simp add: new_row_def new_filename_def)
  have run': "dashboard_predict ?env cfg req st =
       (succeeded res,
        st1\<lparr> st_uploads := files,
             st_db := st_db st1 @ [?row],
             st_log := st_log st1
               @ [LogPrediction (result_class res) (confidence res) (username req)] \<rparr>)"
    unfolding dashboard_predict_Next [OF inferred'] store' row' by simp
  show ?thesis
  proof (intro exI conjI)
    show "dashboard_predict env cfg req st = (succeeded res, ?st')" by (rule run)
    show "success (succeeded res)" by (simp add: succeeded_def)
    show "status (succeeded res) = 200" by (simp add: succeeded_def)
    show "result (succeeded res) = Some res" by (simp add: succeeded_def)
    show "st_db ?st' = st_db st @ [?row]" using db by simp
    show "p_user_id ?row = user_id req" by (simp add: new_row_def)
    show "p_original_filename ?row = orig" by (simp add: new_row_def)
    show "p_result_class ?row = result_class res" by (simp add: new_row_def)
    show "p_confidence ?row = confidence res" by (simp add: new_row_def)
    show "?err \<in> set (st_log ?st')" by simp
    show "st_uploads ?st' = st_uploads st" using up by simp
    show "fst (dashboard_predict ?env cfg req st) = succeeded res"
      unfolding run' by simp
    show "st_db (snd (dashboard_predict ?env cfg req st)) = st_db ?st'"
      unfolding run' by simp
  qed
qed

lemma alice_result:
  "result_class (interpret_prob 0.9) = ''Normal'' \<and> confidence (interpret_prob 0.9) = 0.9"
  by (simp add: interpret_prob_def)

lemma alice_new_filename:
  "new_filename alice_world alice_request (interpret_prob 0.9) (stored_extension ''png'')
     = ''Normal_20240101_120000_alice.png''"
  by (simp add: new_filename_def stored_extension_def lower_def lower_char_def alice_result
      alice_world_def alice_request_def)

lemma alice_save:
  "save_image (write_error alice_world) (Decoded ''RGB'')
       (os_path_join (UPLOAD_FOLDER alice_config) ''Normal_20240101_120000_alice.png'')
       (save_format (stored_extension ''png'')) (st_uploads alice_inferred)
     = (Inr True, [\<lparr> file_path = ''uploads/Normal_20240101_120000_alice.png'',
                      file_format = ''PNG'', file_image = Decoded ''RGB'' \<rparr>])"
proof -
  have f: "save_format (stored_extension ''png'') = ''PNG''"
    by (simp add: save_format_def stored_extension_def lower_def lower_char_def upper_def
        upper_char_def)
  have p: "os_path_join (UPLOAD_FOLDER alice_config) ''Normal_20240101_120000_alice.png''
             = ''uploads/Normal_20240101_120000_alice.png''"
    by (simp add: os_path_join_def alice_config_def suffix_def)
  show ?thesis
    unfolding f p
    by (simp add: save_image_def alice_world_def alice_inferred_def upper_def upper_char_def)
qed

lemma alice_store:
  "predict_store_and_record alice_world alice_config alice_request ''photo.png''
       (Decoded ''RGB'') (interpret_prob 0.9) alice_inferred
     = (Inr (succeeded (interpret_prob 0.9)), alice_recorded)"
proof -
  have c: "commit_error alice_world = None" by (simp add: alice_world_def)
  have u: "user_id alice_request = 1" "username alice_request = ''alice''"
    by (simp_all add: alice_request_def)
  show ?thesis
    unfolding predict_store_and_record_def
    by (simp add: extension_photo Let_def alice_new_filename alice_save record_prediction_def c u
        alice_result)
      (simp add: alice_inferred_def alice_recorded_def)
qed

lemma alice_run:
  "dashboard_predict alice_world alice_config alice_request empty_state
     = (succeeded (interpret_prob 0.9), alice_recorded)"
  unfolding dashboard_predict_Next [OF alice_until_inferred] alice_store by simp

text \<open>
  Claim C4 as stated (a PNG uploaded by alice is stored as \<open>..._alice.jpg\<close>) fails: in
  scenario A the pipeline succeeds and the stored name is
  \<open>Normal_20240101_120000_alice.png\<close>.
\<close>

theorem stored_filename_png_counterexample:
  "success (fst (dashboard_predict alice_world alice_config alice_request empty_state))
   \<and> map p_filename (st_db (snd (dashboard_predict alice_world alice_config alice_request
                                    empty_state)))
       = [''Normal_20240101_120000_alice.png'']
   \<and> map p_filename (st_db (snd (dashboard_predict alice_world alice_config alice_request
                                    empty_state)))
       \<noteq> [''Normal_20240101_120000_alice.jpg'']"
  unfolding alice_run by (simp add: succeeded_def alice_recorded_def)

theorem stored_filename_extension_witness:
  "dashboard_predict alice_world alice_config alice_request empty_state
     = (succeeded (interpret_prob 0.9), alice_recorded)
   \<and> success (succeeded (interpret_prob 0.9))
   \<and> (\<exists>ext res. get_extension (sanitize_filename (filename alice_request)) = Inr ext
           \<and> ext \<in> ALLOWED_EXTENSIONS
           \<and> (\<forall>base. sanitize_filename (filename alice_request) = base @ ''.png''
                  \<longrightarrow> ext = ''png'')
           \<and> result (succeeded (interpret_prob 0.9)) = Some res
           \<and> str_remove '' '' (result_class res) \<in> {''Normal'', ''DownSyndrome''}
           \<and> (\<exists>row. st_db alice_recorded = st_db empty_state @ [row]
                \<and> p_filename row =
                     str_remove '' '' (result_class res) @ ''_'' @ utcnow alice_world @ ''_''
                       @ secure_filename alice_world (username alice_request) @ ''.''
                       @ (if ext \<in> {''heic'', ''heif''} then ''jpg'' else ext)))"
proof -
  have ok: "success (succeeded (interpret_prob 0.9))" by (simp add: succeeded_def)
  show ?thesis
    by (rule conjI [OF alice_run conjI [OF ok stored_filename_extension [OF alice_run ok]]])
qed

theorem write_failure_not_fatal_witness:
  "predict_until_inferred full_disk_world alice_config alice_request empty_state
     = (Next (''photo.png'', Decoded ''RGB'', interpret_prob 0.9), alice_inferred)
   \<and> write_error full_disk_world = Some ''No space left on device''
   \<and> commit_error full_disk_world = None
   \<and> (\<exists>st'. dashboard_predict full_disk_world alice_config alice_request empty_state
                = (succeeded (interpret_prob 0.9), st')
            \<and> length (st_db st') = 1 \<and> st_uploads st' = [])"
proof -
  have h1: "predict_until_inferred full_disk_world alice_config alice_request empty_state
     = (Next (''photo.png'', Decoded ''RGB'', interpret_prob 0.9), alice_inferred)"
    unfolding full_disk_world_def until_inferred_write_error by (rule alice_until_inferred)
  have h2: "write_error full_disk_world = Some ''No space left on device''"
    by (simp add: full_disk_world_def)
  have h3: "commit_error full_disk_world = None"
    by (simp add: full_disk_world_def alice_world_def)
  from write_failure_not_fatal [OF h1 h2 h3] obtain st' row where
    run: "dashboard_predict full_disk_world alice_config alice_request empty_state
            = (succeeded (interpret_prob 0.9), st')"
    and db: "st_db st' = st_db empty_state @ [row]"
    and up: "st_uploads st' = st_uploads empty_state"
    by (elim exE conjE)
  from db up have "length (st_db st') = 1 \<and> st_uploads st' = []"
    by (simp add: empty_state_def)
  with run h1 h2 h3 show ?thesis by (intro conjI exI [of _ st']) simp_all
qed

end
